theory Spec2Isabelle
  imports Main "HOL-Library.Word" "HOL-Library.Finite_Map"
begin

unbundle bit_operations_syntax

section \<open>Go values: byte slices, machine integers, outcomes\<close>

type_synonym byte = "8 word"

text \<open>
  A Go byte slice is a window on a backing array. \<open>elems\<close> holds the \<open>len\<close> visible
  bytes; \<open>spare\<close> holds the bytes of the backing array that lie beyond \<open>len\<close> and below
  \<open>cap\<close>. A slice expression \<open>s[a:b]\<close> is legal up to the capacity, so it can make spare
  bytes visible; indexing \<open>s[i]\<close> is legal below the length only.
\<close>

record bytes =
  elems :: "byte list"
  spare :: "byte list"

definition len :: "bytes \<Rightarrow> int" where
  "len s = int (length (elems s))"

definition cap :: "bytes \<Rightarrow> int" where
  "cap s = int (length (elems s) + length (spare s))"

text \<open>Go's \<open>int\<close> on a 64-bit platform: additions and products wrap around.\<close>

definition wrap64 :: "int \<Rightarrow> int" where
  "wrap64 x = (x + 2 ^ 63) mod 2 ^ 64 - 2 ^ 63"

text \<open>
  The kinds of a type. The declaration of \<open>Kind\<close> is not among the sources; the
  constructors are the ones the sources mention, and \<open>KindOther\<close> stands for every kind
  that the \<open>switch\<close> of \<open>decode\<close> sends to its \<open>default\<close> branch.
\<close>

datatype Kind =
    KindBool | KindUInt | KindInt | KindString | KindArray | KindSlice
  | KindAddress | KindBytes | KindFixedBytes | KindTuple | KindFunction | KindOther

text \<open>
  The field \<open>t\<close> of a type is a \<open>reflect.Type\<close>; the decoder only asks for its
  \<open>Kind()\<close>, and \<open>readInteger\<close> distinguishes the eight native integer kinds from
  everything else (\<open>*big.Int\<close> among them).
\<close>

datatype ReflectKind =
    RUint8 | RUint16 | RUint32 | RUint64 | RInt8 | RInt16 | RInt32 | RInt64 | ROther

text \<open>
  The errors the sources build with \<open>fmt.Errorf\<close>, one constructor for each message.
\<close>

datatype error =
    ErrReadSlice            \<comment> \<open>input %d read [%d:%d] error\<close>
  | ErrBadBoolean           \<comment> \<open>bad boolean\<close>
  | ErrOffsetInt64          \<comment> \<open>offset larger than int64\<close>
  | ErrOffsetInsufficient   \<comment> \<open>offset insufficient %v require %v\<close>
  | ErrLengthInt64          \<comment> \<open>length larger than int64\<close>
  | ErrLengthInsufficient   \<comment> \<open>length insufficient %v require %v\<close>
  | ErrSizeNegative         \<comment> \<open>size is lower than zero\<close>
  | ErrSizeTooBig           \<comment> \<open>size is too big\<close>
  | ErrTupleRepeated        \<comment> \<open>tuple with repeated values\<close>
  | ErrNotAvailable         \<comment> \<open>decoding not available for type\<close>
  | ErrAddrLen              \<comment> \<open>len is not correct\<close>
  | ErrFunctionType         \<comment> \<open>function type expects the last 8 bytes to be empty\<close>
  | ErrNoMatch              \<comment> \<open>log does not match this event\<close>
  | ErrMultipleConstructor  \<comment> \<open>multiple constructor declaration\<close>
  | ErrUnknownField         \<comment> \<open>unknown field type '%s'\<close>
  | ErrOther                \<comment> \<open>an error of a collaborator outside the sources\<close>

text \<open>
  The outcome of a call: a value, a returned \<open>error\<close>, or a run-time panic (a slice
  expression or an index out of range).
\<close>

datatype 'a res = Ok 'a | Err error | Panic

section \<open>Slice expressions\<close>

text \<open>\<open>s[a:b]\<close>: panics unless \<open>0 \<le> a \<le> b \<le> cap(s)\<close>.\<close>

definition slice_range :: "bytes \<Rightarrow> int \<Rightarrow> int \<Rightarrow> bytes res" where
  "slice_range s a b =
     (if 0 \<le> a \<and> a \<le> b \<and> b \<le> cap s
      then Ok \<lparr>elems = drop (nat a) (take (nat b) (elems s @ spare s)),
               spare = drop (nat b) (elems s @ spare s)\<rparr>
      else Panic)"

text \<open>\<open>s[a:]\<close> is \<open>s[a:len(s)]\<close>.\<close>

definition slice_from :: "bytes \<Rightarrow> int \<Rightarrow> bytes res" where
  "slice_from s a = slice_range s a (len s)"

text \<open>\<open>s[i]\<close>: panics unless \<open>0 \<le> i < len(s)\<close>.\<close>

definition index :: "bytes \<Rightarrow> int \<Rightarrow> byte res" where
  "index s i = (if 0 \<le> i \<and> i < len s then Ok (elems s ! nat i) else Panic)"

section \<open>decode.go: the bounds-checking reader\<close>

definition readSlice :: "bytes \<Rightarrow> int \<Rightarrow> int \<Rightarrow> bytes res" where
  "readSlice input start length' =
     (let end0 = len input;
          start1 = (if start < 0 then wrap64 (end0 + start) else start);
          end1 = (if length' < 0 then wrap64 (end0 + length')
                  else if length' > 0 then wrap64 (start1 + length')
                  else end0)
      in if len input < end1 then Err ErrReadSlice
         else slice_range input start1 end1)"


section \<open>Big-endian numbers and decimal rendering\<close>

text \<open>\<open>big.Int.SetBytes\<close>: the bytes read as one big-endian unsigned number.\<close>

definition SetBytes :: "byte list \<Rightarrow> nat" where
  "SetBytes b = foldl (\<lambda>acc x. acc * 256 + unat x) 0 b"

text \<open>\<open>big.Int.BitLen\<close>: the number of bits of the absolute value, 0 for 0.\<close>

fun BitLen :: "nat \<Rightarrow> nat" where
  "BitLen n = (if n = 0 then 0 else Suc (BitLen (n div 2)))"

declare BitLen.simps [simp del]

text \<open>
  \<open>binary.BigEndian.Uint16/32/64\<close>: each first touches the last byte it needs, which
  panics on a shorter slice, then combines the leading bytes by shifts.
\<close>

definition BigEndian_Uint16 :: "bytes \<Rightarrow> 16 word res" where
  "BigEndian_Uint16 b =
     (if len b < 2 then Panic
      else Ok (ucast (elems b ! 1) OR push_bit 8 (ucast (elems b ! 0))))"

definition BigEndian_Uint32 :: "bytes \<Rightarrow> 32 word res" where
  "BigEndian_Uint32 b =
     (if len b < 4 then Panic
      else Ok (ucast (elems b ! 3) OR push_bit 8 (ucast (elems b ! 2))
               OR push_bit 16 (ucast (elems b ! 1)) OR push_bit 24 (ucast (elems b ! 0))))"

definition Uint64_of :: "byte list \<Rightarrow> 64 word" where
  "Uint64_of b =
     ucast (b ! 7) OR push_bit 8 (ucast (b ! 6))
     OR push_bit 16 (ucast (b ! 5)) OR push_bit 24 (ucast (b ! 4))
     OR push_bit 32 (ucast (b ! 3)) OR push_bit 40 (ucast (b ! 2))
     OR push_bit 48 (ucast (b ! 1)) OR push_bit 56 (ucast (b ! 0))"

definition BigEndian_Uint64 :: "bytes \<Rightarrow> 64 word res" where
  "BigEndian_Uint64 b = (if len b < 8 then Panic else Ok (Uint64_of (elems b)))"

text \<open>\<open>strconv.Itoa\<close> and \<open>%d\<close> on a number that is not negative.\<close>

definition digit :: "nat \<Rightarrow> char" where
  "digit d = char_of (48 + d)"

fun Itoa :: "nat \<Rightarrow> string" where
  "Itoa n = (if n < 10 then [digit n] else Itoa (n div 10) @ [digit (n mod 10)])"

declare Itoa.simps [simp del]

section \<open>The type tree\<close>

text \<open>
  The struct \<open>Type\<close> has the fields \<open>kind\<close>, \<open>size\<close>, \<open>elem\<close>, \<open>raw\<close>, \<open>tuple\<close> and \<open>t\<close>
  (its declaration is not among the sources; \<open>Clone\<close> lists the fields; the selectors
  of \<open>size\<close> and \<open>t\<close> are written \<open>size'\<close> and \<open>t'\<close>). \<open>elem\<close> is a
  pointer that is nil outside arrays and slices; \<open>tuple\<close> is a slice that can be nil or
  hold elements, and \<open>Clone\<close> tells the two apart. A tuple element always carries its
  type: \<open>arguments.Type()\<close> and the parser never store a nil \<open>Elem\<close>.
\<close>

datatype Type =
  Type (kind: Kind) (size': int) (elem: "Type option") (raw: string)
       (tuple: "TupleElem list option") (t': ReflectKind)
and TupleElem =
  TupleElem (Name: string) (Elem: Type) (Indexed: bool)

text \<open>\<open>range t.tuple\<close> and \<open>len(t.tuple)\<close> treat nil as the empty sequence.\<close>

definition tuple_elems :: "Type \<Rightarrow> TupleElem list" where
  "tuple_elems ty = (case tuple ty of None \<Rightarrow> [] | Some es \<Rightarrow> es)"

text \<open>
  Modelled from the spec: \<open>isVariableInput\<close> and \<open>isDynamicType\<close>, methods of \<open>Type\<close>
  whose file is not among the sources. "is_variable_input(t) is true iff t is String,
  Bytes, or Slice"; "is_dynamic_type(t) is true iff t is String, Bytes, or Slice, or t
  is an Array whose element is dynamic, or t is a Tuple containing any dynamic element".
\<close>

definition isVariableInput :: "Type \<Rightarrow> bool" where
  "isVariableInput ty = (kind ty = KindString \<or> kind ty = KindBytes \<or> kind ty = KindSlice)"

fun isDynamicType :: "Type \<Rightarrow> bool"
  and anyDynamic :: "TupleElem list \<Rightarrow> bool" where
  "isDynamicType (Type k sz el rw tup rt) =
     (k = KindString \<or> k = KindBytes \<or> k = KindSlice
      \<or> (k = KindArray \<and> (case el of None \<Rightarrow> False | Some e \<Rightarrow> isDynamicType e))
      \<or> (k = KindTuple \<and> (case tup of None \<Rightarrow> False | Some es \<Rightarrow> anyDynamic es)))"
| "anyDynamic [] = False"
| "anyDynamic (TupleElem n e i # es) = (isDynamicType e \<or> anyDynamic es)"

section \<open>decode.go: decoded values and the word readers\<close>

text \<open>
  The \<open>interface{}\<close> a decoder returns. The native integers keep their bits (a signed
  one is read with \<open>sint\<close>); a \<open>*big.Int\<close> is an unbounded integer; a tuple is a
  \<open>map[string]interface{}\<close>, kept as the list of its entries in insertion order.
\<close>

datatype Value =
    VBool bool
  | VUint8 "8 word" | VUint16 "16 word" | VUint32 "32 word" | VUint64 "64 word"
  | VInt8 "8 word" | VInt16 "16 word" | VInt32 "32 word" | VInt64 "64 word"
  | VBigInt int
  | VString "byte list"
  | VBytes "byte list"
  | VAddress "byte list"
  | VFixedBytes "byte list"
  | VFunction "byte list"
  | VMap "(string \<times> Value) list"
  | VList "Value list"

definition maxUint256 :: int where
  "maxUint256 = 2 ^ 256 + (- 1)"

definition maxInt256 :: int where
  "maxInt256 = 2 ^ 255 + (- 1)"

text \<open>\<open>copy(dst[:], src)\<close> into a zeroed array of \<open>n\<close> bytes.\<close>

definition copy_into :: "nat \<Rightarrow> byte list \<Rightarrow> byte list" where
  "copy_into n src = take n src @ replicate (n - length src) 0"

definition readAddr :: "bytes \<Rightarrow> Value res" where
  "readAddr b =
     (if len b \<noteq> 32 then Err ErrAddrLen
      else case slice_from b 12 of
             Ok src \<Rightarrow> Ok (VAddress (copy_into 20 (elems src)))
           | Err e \<Rightarrow> Err e
           | Panic \<Rightarrow> Panic)"

definition readInteger :: "Type \<Rightarrow> bytes \<Rightarrow> Value res" where
  "readInteger ty b =
     (case t' ty of
        RUint8 \<Rightarrow>
          (case index b (len b - 1) of Ok x \<Rightarrow> Ok (VUint8 x) | Err e \<Rightarrow> Err e | Panic \<Rightarrow> Panic)
      | RUint16 \<Rightarrow>
          (case slice_from b (len b - 2) of
             Ok s \<Rightarrow> (case BigEndian_Uint16 s of Ok x \<Rightarrow> Ok (VUint16 x) | Err e \<Rightarrow> Err e | Panic \<Rightarrow> Panic)
           | Err e \<Rightarrow> Err e | Panic \<Rightarrow> Panic)
      | RUint32 \<Rightarrow>
          (case slice_from b (len b - 4) of
             Ok s \<Rightarrow> (case BigEndian_Uint32 s of Ok x \<Rightarrow> Ok (VUint32 x) | Err e \<Rightarrow> Err e | Panic \<Rightarrow> Panic)
           | Err e \<Rightarrow> Err e | Panic \<Rightarrow> Panic)
      | RUint64 \<Rightarrow>
          (case slice_from b (len b - 8) of
             Ok s \<Rightarrow> (case BigEndian_Uint64 s of Ok x \<Rightarrow> Ok (VUint64 x) | Err e \<Rightarrow> Err e | Panic \<Rightarrow> Panic)
           | Err e \<Rightarrow> Err e | Panic \<Rightarrow> Panic)
      | RInt8 \<Rightarrow>
          (case index b (len b - 1) of Ok x \<Rightarrow> Ok (VInt8 x) | Err e \<Rightarrow> Err e | Panic \<Rightarrow> Panic)
      | RInt16 \<Rightarrow>
          (case slice_from b (len b - 2) of
             Ok s \<Rightarrow> (case BigEndian_Uint16 s of Ok x \<Rightarrow> Ok (VInt16 x) | Err e \<Rightarrow> Err e | Panic \<Rightarrow> Panic)
           | Err e \<Rightarrow> Err e | Panic \<Rightarrow> Panic)
      | RInt32 \<Rightarrow>
          (case slice_from b (len b - 4) of
             Ok s \<Rightarrow> (case BigEndian_Uint32 s of Ok x \<Rightarrow> Ok (VInt32 x) | Err e \<Rightarrow> Err e | Panic \<Rightarrow> Panic)
           | Err e \<Rightarrow> Err e | Panic \<Rightarrow> Panic)
      | RInt64 \<Rightarrow>
          (case slice_from b (len b - 8) of
             Ok s \<Rightarrow> (case BigEndian_Uint64 s of Ok x \<Rightarrow> Ok (VInt64 x) | Err e \<Rightarrow> Err e | Panic \<Rightarrow> Panic)
           | Err e \<Rightarrow> Err e | Panic \<Rightarrow> Panic)
      | ROther \<Rightarrow>
          (let ret = int (SetBytes (elems b)) in
           if kind ty = KindUInt then Ok (VBigInt ret)
           else if ret > maxInt256
                then (let r1 = maxUint256 + (- ret); r2 = r1 + 1 in Ok (VBigInt (- r2)))
                else Ok (VBigInt ret)))"

fun allZeros :: "byte list \<Rightarrow> bool" where
  "allZeros [] = True"
| "allZeros (i # b) = (if i \<noteq> 0 then False else allZeros b)"

definition readFunctionType :: "Type \<Rightarrow> bytes \<Rightarrow> Value res" where
  "readFunctionType ty word =
     (case slice_range word 24 32 of
        Err e \<Rightarrow> Err e | Panic \<Rightarrow> Panic
      | Ok last8 \<Rightarrow>
          if \<not> allZeros (elems last8) then Err ErrFunctionType
          else (case slice_range word 0 24 of
                  Err e \<Rightarrow> Err e | Panic \<Rightarrow> Panic
                | Ok first24 \<Rightarrow> Ok (VFunction (copy_into 24 (elems first24)))))"

text \<open>
  \<open>readFixedBytes\<close> copies \<open>word[0:t.size]\<close> into a fresh array of the reflected type
  \<open>t.t\<close>, which for a type built by the parser is \<open>[size]byte\<close>.
\<close>

definition readFixedBytes :: "Type \<Rightarrow> bytes \<Rightarrow> Value res" where
  "readFixedBytes ty word =
     (case slice_range word 0 (size' ty) of
        Err e \<Rightarrow> Err e | Panic \<Rightarrow> Panic
      | Ok w \<Rightarrow> Ok (VFixedBytes (elems w)))"

definition decodeBool :: "bytes \<Rightarrow> Value res" where
  "decodeBool data =
     (case index data 31 of
        Err e \<Rightarrow> Err e | Panic \<Rightarrow> Panic
      | Ok x \<Rightarrow> if x = 0 then Ok (VBool False)
                else if x = 1 then Ok (VBool True)
                else Err ErrBadBoolean)"

definition readOffset :: "bytes \<Rightarrow> int \<Rightarrow> int res" where
  "readOffset data len' =
     (case slice_range data 0 32 of
        Err e \<Rightarrow> Err e | Panic \<Rightarrow> Panic
      | Ok w \<Rightarrow>
          (let offsetBig = SetBytes (elems w) in
           if BitLen offsetBig > 63 then Err ErrOffsetInt64
           else (let offset = int offsetBig in
                 if offset > len' then Err ErrOffsetInsufficient else Ok offset)))"

definition readLength :: "bytes \<Rightarrow> int res" where
  "readLength data =
     (case readSlice data 0 32 of
        Err e \<Rightarrow> Err e | Panic \<Rightarrow> Panic
      | Ok input \<Rightarrow>
          (let lengthBig = SetBytes (elems input) in
           if BitLen lengthBig > 63 then Err ErrLengthInt64
           else (let length' = int lengthBig in
                 if length' > len data then Err ErrLengthInsufficient else Ok length')))"

section \<open>decode.go: the decoder\<close>

text \<open>
  The end of \<open>decode\<close> for the types of one word or one length-prefixed payload: a
  panic of the reader stops everything; otherwise the residual input
  \<open>readSlice(input, 32, 0)\<close> is taken, and its error goes first.
\<close>

definition decode_return :: "bytes \<Rightarrow> Value res \<Rightarrow> (Value \<times> bytes) res" where
  "decode_return input r =
     (case r of
        Panic \<Rightarrow> Panic
      | _ \<Rightarrow> (case readSlice input 32 0 of
                Err e \<Rightarrow> Err e | Panic \<Rightarrow> Panic
              | Ok data \<Rightarrow> (case r of Ok val \<Rightarrow> Ok (val, data) | Err err \<Rightarrow> Err err | Panic \<Rightarrow> Panic)))"

text \<open>The second \<open>switch\<close> of \<open>decode\<close>.\<close>

definition decode_word :: "Type \<Rightarrow> bytes \<Rightarrow> int \<Rightarrow> (Value \<times> bytes) res" where
  "decode_word ty input length' =
     (case kind ty of
        KindBool \<Rightarrow>
          (case readSlice input 0 32 of Err e \<Rightarrow> Err e | Panic \<Rightarrow> Panic
           | Ok data \<Rightarrow> decode_return input (decodeBool data))
      | KindInt \<Rightarrow>
          (case readSlice input 0 32 of Err e \<Rightarrow> Err e | Panic \<Rightarrow> Panic
           | Ok data \<Rightarrow> decode_return input (readInteger ty data))
      | KindUInt \<Rightarrow>
          (case readSlice input 0 32 of Err e \<Rightarrow> Err e | Panic \<Rightarrow> Panic
           | Ok data \<Rightarrow> decode_return input (readInteger ty data))
      | KindString \<Rightarrow>
          (case readSlice input 32 length' of Err e \<Rightarrow> Err e | Panic \<Rightarrow> Panic
           | Ok data \<Rightarrow> decode_return input (Ok (VString (elems data))))
      | KindBytes \<Rightarrow>
          (case readSlice input 32 length' of Err e \<Rightarrow> Err e | Panic \<Rightarrow> Panic
           | Ok data \<Rightarrow> decode_return input (Ok (VBytes (elems data))))
      | KindAddress \<Rightarrow>
          (case readSlice input 0 32 of Err e \<Rightarrow> Err e | Panic \<Rightarrow> Panic
           | Ok data \<Rightarrow> decode_return input (readAddr data))
      | KindFixedBytes \<Rightarrow>
          (case readSlice input 0 32 of Err e \<Rightarrow> Err e | Panic \<Rightarrow> Panic
           | Ok data \<Rightarrow> decode_return input (readFixedBytes ty data))
      | KindFunction \<Rightarrow>
          (case readSlice input 0 32 of Err e \<Rightarrow> Err e | Panic \<Rightarrow> Panic
           | Ok data \<Rightarrow> decode_return input (readFunctionType ty data))
      | _ \<Rightarrow> Err ErrNotAvailable)"

text \<open>
  \<open>decode\<close>, \<open>decodeTuple\<close> and \<open>decodeArraySlice\<close> call each other. The two \<open>for\<close>
  loops are the functions \<open>decodeTuple_loop\<close> (over the remaining elements, with the
  index, \<open>orig\<close>, the cursor \<open>data\<close> and the map built so far) and
  \<open>decodeArraySlice_loop\<close> (over the remaining count). The value \<open>decodeArraySlice\<close>
  builds by reflection is kept as the list of its elements.
\<close>

function decode :: "Type \<Rightarrow> bytes \<Rightarrow> (Value \<times> bytes) res"
  and decodeTuple :: "Type \<Rightarrow> bytes \<Rightarrow> (Value \<times> bytes) res"
  and decodeTuple_loop ::
    "TupleElem list \<Rightarrow> nat \<Rightarrow> bytes \<Rightarrow> bytes \<Rightarrow> (string \<times> Value) list \<Rightarrow> (Value \<times> bytes) res"
  and decodeArraySlice :: "Type \<Rightarrow> bytes \<Rightarrow> int \<Rightarrow> (Value \<times> bytes) res"
  and decodeArraySlice_loop ::
    "Type option \<Rightarrow> nat \<Rightarrow> bytes \<Rightarrow> bytes \<Rightarrow> Value list \<Rightarrow> (Value \<times> bytes) res"
where
  "decode (Type k sz el rw tup rt) input =
     (case (if isVariableInput (Type k sz el rw tup rt) then readLength input else Ok 0) of
        Err e \<Rightarrow> Err e | Panic \<Rightarrow> Panic
      | Ok length' \<Rightarrow>
          (if k = KindTuple then decodeTuple (Type k sz el rw tup rt) input
           else if k = KindSlice then
             (case readSlice input 32 0 of Err e \<Rightarrow> Err e | Panic \<Rightarrow> Panic
              | Ok data \<Rightarrow> decodeArraySlice (Type k sz el rw tup rt) data length')
           else if k = KindArray then decodeArraySlice (Type k sz el rw tup rt) input sz
           else decode_word (Type k sz el rw tup rt) input length'))"
| "decodeTuple (Type k sz el rw tup rt) data =
     decodeTuple_loop (case tup of None \<Rightarrow> [] | Some es \<Rightarrow> es) 0 data data []"
| "decodeTuple_loop [] indx orig data res = Ok (VMap res, data)"
| "decodeTuple_loop (arg # args) indx orig data res =
     (case (if isDynamicType (Elem arg)
            then (case readOffset data (len orig) of
                    Err e \<Rightarrow> Err e | Panic \<Rightarrow> Panic
                  | Ok offset \<Rightarrow> slice_from orig offset)
            else Ok data) of
        Err e \<Rightarrow> Err e | Panic \<Rightarrow> Panic
      | Ok entry \<Rightarrow>
          (case decode (Elem arg) entry of
             Err e \<Rightarrow> Err e | Panic \<Rightarrow> Panic
           | Ok (val, tail) \<Rightarrow>
               (case (if \<not> isDynamicType (Elem arg) then Ok tail else slice_from data 32) of
                  Err e \<Rightarrow> Err e | Panic \<Rightarrow> Panic
                | Ok data' \<Rightarrow>
                    (let name = (if Name arg = [] then Itoa indx else Name arg) in
                     if name \<notin> set (map fst res)
                     then decodeTuple_loop args (Suc indx) orig data' (res @ [(name, val)])
                     else Err ErrTupleRepeated))))"
| "decodeArraySlice (Type k sz el rw tup rt) data n =
     (if n < 0 then Err ErrSizeNegative
      else if wrap64 (32 * n) > len data then Err ErrSizeTooBig
      else decodeArraySlice_loop el (nat n) data data [])"
| "decodeArraySlice_loop el 0 orig data res = Ok (VList res, data)"
| "decodeArraySlice_loop el (Suc n) orig data res =
     (case el of
        None \<Rightarrow> Panic
      | Some elem' \<Rightarrow>
          (case (if isDynamicType elem'
                 then (case readOffset data (len orig) of
                         Err e \<Rightarrow> Err e | Panic \<Rightarrow> Panic
                       | Ok offset \<Rightarrow> slice_from orig offset)
                 else Ok data) of
             Err e \<Rightarrow> Err e | Panic \<Rightarrow> Panic
           | Ok entry \<Rightarrow>
               (case decode elem' entry of
                  Err e \<Rightarrow> Err e | Panic \<Rightarrow> Panic
                | Ok (val, tail) \<Rightarrow>
                    (case (if \<not> isDynamicType elem' then Ok tail else slice_from data 32) of
                       Err e \<Rightarrow> Err e | Panic \<Rightarrow> Panic
                     | Ok data' \<Rightarrow> decodeArraySlice_loop el n orig data' (res @ [val])))))"
  by pat_completeness auto
termination
  apply (relation "inv_image (less_than <*lex*> less_than)
        (\<lambda>x. case x of
           Inl (Inl (ty, _)) \<Rightarrow> (size ty, 1)
         | Inl (Inr (ty, _)) \<Rightarrow> (size ty, 0)
         | Inr (Inl (args, _)) \<Rightarrow> (size_list size args, 0)
         | Inr (Inr (Inl (ty, _))) \<Rightarrow> (size ty, 0)
         | Inr (Inr (Inr (el, n, _))) \<Rightarrow> (size_option size el, Suc n))")
          apply (auto split: option.splits)
  subgoal for arg by (cases arg) simp
  done

text \<open>\<open>Decode\<close> drops the residual input.\<close>

definition Decode :: "Type \<Rightarrow> bytes \<Rightarrow> Value res" where
  "Decode ty input =
     (case decode ty input of Ok (val, rest) \<Rightarrow> Ok val | Err e \<Rightarrow> Err e | Panic \<Rightarrow> Panic)"

section \<open>clone.go\<close>

text \<open>
  \<open>Clone\<close> is a method on \<open>*Type\<close> that answers nil for nil: \<open>Clone_ptr\<close>. On a node
  it copies \<open>kind\<close>, \<open>size\<close>, \<open>raw\<close> and \<open>t\<close>, clones \<open>elem\<close>, and builds a new
  \<open>TupleElem\<close> for each element of a tuple that is not nil. The composite literal sets
  \<open>Elem\<close> and \<open>Indexed\<close>; the line \<open>Name: v.Name\<close> is commented out in the source, so
  \<open>Name\<close> keeps its zero value, the empty string.
\<close>

fun Clone :: "Type \<Rightarrow> Type"
  and Clone_ptr :: "Type option \<Rightarrow> Type option"
  and Clone_tuple :: "TupleElem list \<Rightarrow> TupleElem list" where
  "Clone (Type k sz el rw tup rt) =
     Type k sz (Clone_ptr el) rw
       (case tup of None \<Rightarrow> None | Some vs \<Rightarrow> Some (Clone_tuple vs)) rt"
| "Clone_ptr None = None"
| "Clone_ptr (Some ty) = Some (Clone ty)"
| "Clone_tuple [] = []"
| "Clone_tuple (TupleElem v_Name v_Elem v_Indexed # vs) =
     TupleElem [] (Clone v_Elem) v_Indexed # Clone_tuple vs"

section \<open>Methods, events and their identifiers\<close>

text \<open>
  \<open>Inputs\<close> is set wherever the sources build a method or an event, and \<open>Sig\<close>
  dereferences it: it is a type, not an optional one. \<open>Outputs\<close> stays nil for the
  constructor.
\<close>

record Method =
  Method_Name :: string
  Method_Const :: bool
  Method_Inputs :: Type
  Method_Outputs :: "Type option"
  Method_id :: "byte list"

text \<open>The \<open>id\<close> of an event is a \<open>web3.Hash\<close>, an array of 32 bytes.\<close>

record Event =
  Event_Name :: string
  Event_Anonymous :: bool
  Event_Inputs :: Type
  Event_id :: "byte list"

text \<open>\<open>strings.Join\<close>: the first element, then each further one after the separator.\<close>

fun Join :: "string list \<Rightarrow> string \<Rightarrow> string" where
  "Join [] sep = []"
| "Join (x # xs) sep = x @ concat (map (\<lambda>s. sep @ s) xs)"

text \<open>
  \<open>buildSignature\<close> allocates \<open>len(typ.tuple)\<close> empty strings and stores the raw form of
  the element type at each index.
\<close>

fun buildSignature_loop :: "TupleElem list \<Rightarrow> nat \<Rightarrow> string list \<Rightarrow> string list" where
  "buildSignature_loop [] i types = types"
| "buildSignature_loop (input # rest) i types =
     buildSignature_loop rest (Suc i) (types[i := raw (Elem input)])"

definition buildSignature :: "string \<Rightarrow> Type \<Rightarrow> string" where
  "buildSignature name typ =
     (let types = buildSignature_loop (tuple_elems typ) 0
                    (replicate (length (tuple_elems typ)) [])
      in name @ ''('' @ Join types '','' @ '')'')"

definition Method_Sig :: "Method \<Rightarrow> string" where
  "Method_Sig m = buildSignature (Method_Name m) (Method_Inputs m)"

definition Event_Sig :: "Event \<Rightarrow> string" where
  "Event_Sig e = buildSignature (Event_Name e) (Event_Inputs e)"

text \<open>\<open>[]byte(s)\<close>.\<close>

definition string_bytes :: "string \<Rightarrow> byte list" where
  "string_bytes s = map (\<lambda>c. word_of_nat (of_char c)) s"

text \<open>
  \<open>ID\<close> reads and writes the cache field, so it returns the identifier and the updated
  object. The Keccak-256 hasher comes from \<open>golang.org/x/crypto/sha3\<close>; it is the
  parameter \<open>keccak\<close>, a function from the bytes written to the 32 bytes of \<open>Sum(nil)\<close>.
\<close>

definition Method_ID :: "(byte list \<Rightarrow> byte list) \<Rightarrow> Method \<Rightarrow> byte list \<times> Method" where
  "Method_ID keccak m =
     (if length (Method_id m) > 0 then (Method_id m, m)
      else (let m' = m\<lparr>Method_id := take 4 (keccak (string_bytes (Method_Sig m)))\<rparr>
            in (Method_id m', m')))"

text \<open>\<open>copy(dst, src)\<close> over an existing array: the first \<open>min\<close> of the two lengths.\<close>

definition copy_over :: "byte list \<Rightarrow> byte list \<Rightarrow> byte list" where
  "copy_over dst src = take (length dst) src @ drop (length src) dst"

text \<open>
  \<open>Event.ID\<close> takes the cache for filled when the first 8 bytes of \<open>id\<close>, read as a
  big-endian number, are not 0. (\<open>e.id[:]\<close> has 32 bytes, so \<open>Uint64\<close> cannot panic.)
\<close>

definition Event_ID :: "(byte list \<Rightarrow> byte list) \<Rightarrow> Event \<Rightarrow> byte list \<times> Event" where
  "Event_ID keccak e =
     (if Uint64_of (Event_id e) > 0 then (Event_id e, e)
      else (let dst = keccak (string_bytes (Event_Sig e));
                e' = e\<lparr>Event_id := copy_over (Event_id e) dst\<rparr>
            in (Event_id e', e')))"

section \<open>Matching and parsing a log\<close>

text \<open>Of \<open>web3.Log\<close> the sources read \<open>Topics\<close>; \<open>Data\<close> goes to the type's parser.\<close>

record Log =
  Topics :: "byte list list"
  Data :: bytes

definition Event_Match :: "(byte list \<Rightarrow> byte list) \<Rightarrow> Event \<Rightarrow> Log \<Rightarrow> bool \<times> Event" where
  "Event_Match keccak e log =
     (if length (Topics log) = 0 then (False, e)
      else (let (i, e') = Event_ID keccak e
            in if Topics log ! 0 \<noteq> i then (False, e') else (True, e')))"

text \<open>
  \<open>Type.ParseLog\<close> is not among the sources: \<open>Event.ParseLog\<close> takes it as the
  parameter \<open>Type_ParseLog\<close>.
\<close>

definition Event_ParseLog ::
  "(byte list \<Rightarrow> byte list) \<Rightarrow> (Type \<Rightarrow> Log \<Rightarrow> 'r res) \<Rightarrow> Event \<Rightarrow> Log \<Rightarrow> 'r res \<times> Event" where
  "Event_ParseLog keccak Type_ParseLog e log =
     (let (ok, e') = Event_Match keccak e log
      in if \<not> ok then (Err ErrNoMatch, e')
         else (Type_ParseLog (Event_Inputs e') log, e'))"

section \<open>Parsing the JSON ABI document\<close>

record argument =
  argument_Name :: string
  argument_Type :: Type
  argument_Indexed :: bool

fun arguments_Type_loop :: "argument list \<Rightarrow> TupleElem list \<Rightarrow> TupleElem list" where
  "arguments_Type_loop [] inputs = inputs"
| "arguments_Type_loop (i # a) inputs =
     arguments_Type_loop a
       (inputs @ [TupleElem (argument_Name i) (argument_Type i) (argument_Indexed i)])"

definition arguments_Type :: "argument list \<Rightarrow> Type" where
  "arguments_Type a = Type KindTuple 0 None ''tuple'' (Some (arguments_Type_loop a [])) ROther"

text \<open>One entry of the document, as \<open>json.Unmarshal\<close> fills it.\<close>

record field =
  field_Type :: string
  field_Name :: string
  field_Constant :: bool
  field_Anonymous :: bool
  field_StateMutability :: string
  field_Inputs :: "argument list"
  field_Outputs :: "argument list"

record ABI =
  Constructor :: "Method option"
  Methods :: "(string, Method) fmap"
  Events :: "(string, Event) fmap"

text \<open>
  The loop of \<open>overloadedMethodName\<close> and \<open>overloadedEventName\<close>:
  \<open>for idx := 0; ok; idx++ { name = rawName + idx; _, ok = m[name] }\<close>. It ends
  because a map has finitely many keys and the candidates are pairwise distinct. (The
  counter is a Go \<open>int\<close>; it would overflow only after \<open>2^63\<close> stored keys.)
\<close>

function overloaded_loop ::
  "(string, 'v) fmap \<Rightarrow> string \<Rightarrow> string \<Rightarrow> bool \<Rightarrow> nat \<Rightarrow> string" where
  "overloaded_loop m rawName name ok idx =
     (if ok
      then (let name' = rawName @ Itoa idx;
                ok' = (fmlookup m name' \<noteq> None)
            in overloaded_loop m rawName name' ok' (Suc idx))
      else name)"
  by pat_completeness auto
termination
proof (relation "measure (\<lambda>(m, rawName, name, ok, idx).
          if ok then Suc (card {j. idx \<le> j \<and> fmlookup m (rawName @ Itoa j) \<noteq> None}) else 0)",
       goal_cases)
  case 1
  show ?case by simp
next
  case (2 m rawName name ok idx name' ok')
  have rd: "foldl (\<lambda>a c. a * 10 + (of_char c - 48)) 0 (Itoa n) = n" for n :: nat
  proof (induction n rule: Itoa.induct)
    case (1 n)
    show ?case
    proof (cases "n < 10")
      case True
      then show ?thesis by (simp add: Itoa.simps [of n] digit_def)
    next
      case False
      have "n mod 10 < 10" by simp
      then have "of_char (digit (n mod 10)) - 48 = n mod 10"
        unfolding digit_def by (simp only: of_char_of) simp
      with 1 False show ?thesis by (simp add: Itoa.simps [of n])
    qed
  qed
  have "inj (\<lambda>j. rawName @ Itoa j)"
  proof (rule injI)
    fix x y assume "rawName @ Itoa x = rawName @ Itoa y"
    then have "Itoa x = Itoa y" by simp
    then have "foldl (\<lambda>a c. a * 10 + (of_char c - 48)) 0 (Itoa x)
             = foldl (\<lambda>a c. a * 10 + (of_char c - 48)) (0::nat) (Itoa y)"
      by (rule arg_cong)
    then show "x = y" by (simp only: rd)
  qed
  then have fin: "finite ((\<lambda>j. rawName @ Itoa j) -` fmdom' m)"
    by (rule finite_vimageI [OF finite_fmdom'])
  let ?A = "{j. idx \<le> j \<and> fmlookup m (rawName @ Itoa j) \<noteq> None}"
  let ?B = "{j. Suc idx \<le> j \<and> fmlookup m (rawName @ Itoa j) \<noteq> None}"
  have finA: "finite ?A"
    by (rule finite_subset [OF _ fin]) (auto simp: fmlookup_dom'_iff)
  show ?case
  proof (cases ok')
    case False
    with 2 show ?thesis by simp
  next
    case True
    with 2 have "idx \<in> ?A" by simp
    moreover have "idx \<notin> ?B" by simp
    moreover have "?B \<subseteq> ?A" by auto
    ultimately have "?B \<subset> ?A" by blast
    then have "card ?B < card ?A" by (rule psubset_card_mono [OF finA])
    with 2 True show ?thesis by simp
  qed
qed

declare overloaded_loop.simps [simp del]

definition overloadedMethodName :: "ABI \<Rightarrow> string \<Rightarrow> string" where
  "overloadedMethodName abi rawName =
     overloaded_loop (Methods abi) rawName rawName (fmlookup (Methods abi) rawName \<noteq> None) 0"

definition overloadedEventName :: "ABI \<Rightarrow> string \<Rightarrow> string" where
  "overloadedEventName abi rawName =
     overloaded_loop (Events abi) rawName rawName (fmlookup (Events abi) rawName \<noteq> None) 0"

text \<open>The \<open>for\<close> loop of \<open>UnmarshalJSON\<close> over the entries, the \<open>ABI\<close> passed along.\<close>

fun UnmarshalJSON_loop :: "field list \<Rightarrow> ABI \<Rightarrow> ABI res" where
  "UnmarshalJSON_loop [] a = Ok a"
| "UnmarshalJSON_loop (f # flds) a =
     (if field_Type f = ''constructor'' then
        (if Constructor a \<noteq> None then Err ErrMultipleConstructor
         else UnmarshalJSON_loop flds
                (a\<lparr>Constructor := Some \<lparr>Method_Name = [], Method_Const = False,
                      Method_Inputs = arguments_Type (field_Inputs f),
                      Method_Outputs = None, Method_id = []\<rparr>\<rparr>))
      else if field_Type f = ''function'' \<or> field_Type f = [] then
        (let c = (if field_StateMutability f = ''view'' \<or> field_StateMutability f = ''pure''
                  then True else field_Constant f);
             name = overloadedMethodName a (field_Name f)
         in UnmarshalJSON_loop flds
              (a\<lparr>Methods := fmupd name
                    \<lparr>Method_Name = field_Name f, Method_Const = c,
                     Method_Inputs = arguments_Type (field_Inputs f),
                     Method_Outputs = Some (arguments_Type (field_Outputs f)),
                     Method_id = []\<rparr> (Methods a)\<rparr>))
      else if field_Type f = ''event'' then
        (let name = overloadedEventName a (field_Name f)
         in UnmarshalJSON_loop flds
              (a\<lparr>Events := fmupd name
                    \<lparr>Event_Name = field_Name f, Event_Anonymous = field_Anonymous f,
                     Event_Inputs = arguments_Type (field_Inputs f),
                     Event_id = replicate 32 0\<rparr> (Events a)\<rparr>))
      else if field_Type f = ''error'' then UnmarshalJSON_loop flds a
      else if field_Type f = ''fallback'' then UnmarshalJSON_loop flds a
      else if field_Type f = ''receive'' then UnmarshalJSON_loop flds a
      else Err ErrUnknownField)"

definition UnmarshalJSON :: "field list \<Rightarrow> ABI \<Rightarrow> ABI res" where
  "UnmarshalJSON flds a = UnmarshalJSON_loop flds (a\<lparr>Methods := fmempty, Events := fmempty\<rparr>)"

section \<open>Example values\<close>

text \<open>
  A stand-in for the hasher with the right output length, the method
  \<open>transfer(address,uint256)\<close>, the event \<open>Transfer(address,address,uint256)\<close>, and a
  document that declares the function \<open>send\<close> three times.
\<close>

definition ex_keccak :: "byte list \<Rightarrow> byte list" where
  "ex_keccak b = replicate 32 (word_of_nat (length b))"

definition ex_method :: Method where
  "ex_method = \<lparr>Method_Name = ''transfer'', Method_Const = False,
         Method_Inputs = Type KindTuple 0 None ''tuple''
           (Some [TupleElem ''to'' (Type KindAddress 0 None ''address'' None ROther) False,
                  TupleElem ''value'' (Type KindUInt 256 None ''uint256'' None ROther) False])
           ROther,
         Method_Outputs = None, Method_id = []\<rparr>"

definition ex_event :: Event where
  "ex_event = \<lparr>Event_Name = ''Transfer'', Event_Anonymous = False,
         Event_Inputs = Type KindTuple 0 None ''tuple''
           (Some [TupleElem ''from'' (Type KindAddress 0 None ''address'' None ROther) True,
                  TupleElem ''to'' (Type KindAddress 0 None ''address'' None ROther) True,
                  TupleElem ''value'' (Type KindUInt 256 None ''uint256'' None ROther) False])
           ROther,
         Event_id = replicate 32 0\<rparr>"

definition ex_anonymous :: Event where
  "ex_anonymous = \<lparr>Event_Name = ''Transfer'', Event_Anonymous = True,
         Event_Inputs = Type KindTuple 0 None ''tuple'' (Some []) ROther,
         Event_id = replicate 32 0\<rparr>"

definition ex_log :: "byte \<Rightarrow> Log" where
  "ex_log x = \<lparr>Topics = [replicate 32 x], Data = \<lparr>elems = [], spare = []\<rparr>\<rparr>"

definition ex_Type_ParseLog :: "Type \<Rightarrow> Log \<Rightarrow> nat res" where
  "ex_Type_ParseLog ty log = Ok (length (Topics log))"

definition ex_field :: field where
  "ex_field = \<lparr>field_Type = ''function'', field_Name = ''send'', field_Constant = False,
               field_Anonymous = False, field_StateMutability = ''view'',
               field_Inputs = [], field_Outputs = []\<rparr>"

definition ex_send :: Method where
  "ex_send = \<lparr>Method_Name = ''send'', Method_Const = True,
              Method_Inputs = Type KindTuple 0 None ''tuple'' (Some []) ROther,
              Method_Outputs = Some (Type KindTuple 0 None ''tuple'' (Some []) ROther),
              Method_id = []\<rparr>"

definition ex_abi :: ABI where
  "ex_abi = \<lparr>Constructor = None,
             Methods = fmupd ''send1'' ex_send
                        (fmupd ''send0'' ex_send (fmupd ''send'' ex_send fmempty)),
             Events = fmempty\<rparr>"

section \<open>Properties\<close>

subsection \<open>Big-endian numbers\<close>

lemma SetBytes_snoc: "SetBytes (b @ [x]) = SetBytes b * 256 + unat x"
  by (simp add: SetBytes_def)

lemma SetBytes_sum:
  "SetBytes b = (\<Sum>i<length b. unat (b ! i) * 256 ^ (length b - 1 - i))"
proof (induction b rule: rev_induct)
  case Nil
  then show ?case by (simp add: SetBytes_def)
next
  case (snoc x xs)
  have "(\<Sum>i<length xs. unat ((xs @ [x]) ! i) * 256 ^ (length xs - i))
      = (\<Sum>i<length xs. (unat (xs ! i) * 256 ^ (length xs - 1 - i)) * 256)"
    by (rule sum.cong) (auto simp: nth_append Suc_diff_Suc simp flip: power_Suc2)
  then show ?case
    using snoc by (simp add: SetBytes_snoc sum_distrib_right)
qed

lemma SetBytes_horner: "int (SetBytes bs) = horner_sum uint 256 (rev bs)"
proof (induction bs rule: rev_induct)
  case Nil
  then show ?case by (simp add: SetBytes_def)
next
  case (snoc x xs)
  then show ?case by (simp add: SetBytes_def)
qed

lemma BitLen_le: "BitLen n \<le> k \<longleftrightarrow> n < 2 ^ k"
proof (induction n arbitrary: k rule: BitLen.induct)
  case (1 n)
  show ?case
  proof (cases "n = 0")
    case True
    then show ?thesis by (simp add: BitLen.simps)
  next
    case False
    show ?thesis
    proof (cases k)
      case 0
      with False show ?thesis by (simp add: BitLen.simps [of n])
    next
      case (Suc k')
      have "n div 2 < 2 ^ k' \<longleftrightarrow> n < 2 ^ Suc k'" by auto
      with 1 [OF False, of k'] False Suc show ?thesis
        by (simp add: BitLen.simps [of n])
    qed
  qed
qed

lemma BitLen_gt_63: "BitLen n > 63 \<longleftrightarrow> 2 ^ 63 \<le> n"
  using BitLen_le [of n 63] by auto

text \<open>A byte and anything shifted left by 8 share no bit, so \<open>OR\<close> adds them.\<close>

lemma byte_or_push: "uint (b::8 word) + 256 * k = uint b OR push_bit 8 k"
proof -
  have "uint b AND push_bit 8 k = 0"
    by (rule bit_eqI) (auto simp: bit_simps dest: bit_imp_le_length)
  then have "uint b + push_bit 8 k = uint b OR push_bit 8 k"
    by (rule disjunctive_add_eq_or)
  then show ?thesis by (simp add: push_bit_eq_mult)
qed

lemma horner_byte:
  "horner_sum uint 256 ((b::8 word) # bs) = uint b OR push_bit 8 (horner_sum uint 256 bs)"
  by (simp add: byte_or_push)

lemma word_of_nat_SetBytes:
  "(word_of_nat (SetBytes bs) :: 'a::len word) = word_of_int (horner_sum uint 256 (rev bs))"
  by (simp flip: SetBytes_horner)

lemma be16:
  "ucast (b1::8 word) OR push_bit 8 (ucast (b0::8 word))
   = (word_of_nat (SetBytes [b0, b1]) :: 16 word)"
  unfolding word_of_nat_SetBytes
  apply (simp only: rev.simps append.simps horner_byte)
  apply (simp add: of_int_or_eq of_int_push_bit push_bit_or)
  done

lemma be32:
  "ucast (b3::8 word) OR push_bit 8 (ucast (b2::8 word))
   OR push_bit 16 (ucast (b1::8 word)) OR push_bit 24 (ucast (b0::8 word))
   = (word_of_nat (SetBytes [b0, b1, b2, b3]) :: 32 word)"
  unfolding word_of_nat_SetBytes
  apply (simp only: rev.simps append.simps horner_byte)
  apply (simp add: of_int_or_eq of_int_push_bit push_bit_or ac_simps)
  done

lemma be64:
  "Uint64_of [b0, b1, b2, b3, b4, b5, b6, b7]
   = word_of_nat (SetBytes [b0, b1, b2, b3, b4, b5, b6, b7])"
  unfolding word_of_nat_SetBytes Uint64_of_def
  apply (simp only: rev.simps append.simps horner_byte)
  apply (simp add: of_int_or_eq of_int_push_bit push_bit_or ac_simps)
  done

lemma list2: "length x = 2 \<Longrightarrow> x = [x ! 0, x ! 1]"
  by (auto simp: list_eq_iff_nth_eq nth_Cons' less_Suc_eq numeral_2_eq_2)

lemma list4: "length x = 4 \<Longrightarrow> x = [x ! 0, x ! 1, x ! 2, x ! 3]"
  by (cases x; cases "tl x"; cases "tl (tl x)"; cases "tl (tl (tl x))"; simp)

lemma list8: "length x = 8 \<Longrightarrow> x = [x ! 0, x ! 1, x ! 2, x ! 3, x ! 4, x ! 5, x ! 6, x ! 7]"
proof -
  assume l: "length x = 8"
  then have a: "take 4 x = [x ! 0, x ! 1, x ! 2, x ! 3]"
    using list4 [of "take 4 x"] by simp
  from l have b: "drop 4 x = [x ! 4, x ! 5, x ! 6, x ! 7]"
    using list4 [of "drop 4 x"] by simp
  have "x = take 4 x @ drop 4 x" by simp
  with a b show ?thesis by simp
qed

lemma Uint16_SetBytes:
  "length (elems b) = 2 \<Longrightarrow> BigEndian_Uint16 b = Ok (word_of_nat (SetBytes (elems b)))"
  using list2 [of "elems b"] be16 [of "elems b ! 1" "elems b ! 0"]
  by (simp add: BigEndian_Uint16_def len_def)

lemma Uint32_SetBytes:
  "length (elems b) = 4 \<Longrightarrow> BigEndian_Uint32 b = Ok (word_of_nat (SetBytes (elems b)))"
  using list4 [of "elems b"]
    be32 [of "elems b ! 3" "elems b ! 2" "elems b ! 1" "elems b ! 0"]
  by (simp add: BigEndian_Uint32_def len_def)

lemma Uint64_of_SetBytes:
  "length x = 8 \<Longrightarrow> Uint64_of x = word_of_nat (SetBytes x)"
  using list8 [of x] be64 [of "x ! 0" "x ! 1" "x ! 2" "x ! 3" "x ! 4" "x ! 5" "x ! 6" "x ! 7"]
  by simp

lemma Uint64_SetBytes:
  "length (elems b) = 8 \<Longrightarrow> BigEndian_Uint64 b = Ok (word_of_nat (SetBytes (elems b)))"
  by (simp add: BigEndian_Uint64_def len_def Uint64_of_SetBytes)

subsection \<open>Reading one word\<close>

lemma readSlice_0_32:
  "32 \<le> length (elems input) \<Longrightarrow>
   readSlice input 0 32
   = Ok \<lparr>elems = take 32 (elems input), spare = drop 32 (elems input) @ spare input\<rparr>"
  by (simp add: readSlice_def slice_range_def len_def cap_def wrap64_def Let_def)

lemma readSlice_32_0:
  "32 \<le> length (elems input) \<Longrightarrow>
   readSlice input 32 0 = Ok \<lparr>elems = drop 32 (elems input), spare = spare input\<rparr>"
  by (simp add: readSlice_def slice_range_def len_def cap_def wrap64_def Let_def)

lemma decode_return_Ok:
  "32 \<le> length (elems input) \<Longrightarrow>
   decode_return input (Ok v) = Ok (v, \<lparr>elems = drop 32 (elems input), spare = spare input\<rparr>)"
  by (simp add: decode_return_def readSlice_32_0)

lemma decode_int_word:
  assumes "kind ty = KindInt \<or> kind ty = KindUInt" "32 \<le> length (elems input)"
  shows "decode ty input =
     decode_return input
       (readInteger ty \<lparr>elems = take 32 (elems input),
                         spare = drop 32 (elems input) @ spare input\<rparr>)"
  using assms by (cases ty) (auto simp: isVariableInput_def decode_word_def readSlice_0_32)

lemma last_slice:
  assumes "32 \<le> length e" "n \<le> 32"
  shows "slice_from \<lparr>elems = take 32 e, spare = sp\<rparr> (32 - int n)
       = Ok \<lparr>elems = drop (32 - n) (take 32 e), spare = sp\<rparr>"
  using assms by (simp add: slice_from_def slice_range_def len_def cap_def nat_diff_distrib')



subsection \<open>The claims on the decoder\<close>

lemma SetBytes_zeros: "SetBytes (replicate n 0) = 0"
proof (induction n)
  case 0
  show ?case by (simp add: SetBytes_def)
next
  case (Suc n)
  have "replicate (Suc n) (0::byte) = replicate n 0 @ [0]"
    by (simp add: replicate_append_same)
  then have "SetBytes (replicate (Suc n) 0) = SetBytes (replicate n 0) * 256 + unat (0::byte)"
    by (simp only: SetBytes_snoc)
  also have "\<dots> = 0" by (simp only: Suc) simp
  finally show ?case .
qed


text \<open>
  C1 (what the code does). The specification promises that \<open>Decode\<close> returns a value or
  an error for every type and every input, never panics and never reads beyond
  \<open>len(input)\<close>, a tuple with a dynamic element on an input shorter than 32 bytes
  included. In the code \<open>readOffset\<close> takes \<open>data[0:32]\<close> with no check (\<open>readLength\<close>
  goes through \<open>readSlice\<close>). For the type \<open>tuple(string)\<close>: on the empty input with no
  spare capacity \<open>Decode\<close> panics; on the empty input in a buffer of capacity 32 the
  slice expression succeeds and the answer depends on the 32 bytes beyond the length.
\<close>

theorem Decode_truncated_dynamic_tuple_panics:
  "Decode (Type KindTuple 0 None ''tuple''
             (Some [TupleElem [] (Type KindString 0 None ''string'' None ROther) False]) ROther)
          \<lparr>elems = [], spare = []\<rparr> = Panic
   \<and> Decode (Type KindTuple 0 None ''tuple''
             (Some [TupleElem [] (Type KindString 0 None ''string'' None ROther) False]) ROther)
          \<lparr>elems = [], spare = replicate 32 0\<rparr> = Err ErrReadSlice
   \<and> Decode (Type KindTuple 0 None ''tuple''
             (Some [TupleElem [] (Type KindString 0 None ''string'' None ROther) False]) ROther)
          \<lparr>elems = [], spare = replicate 31 0 @ [1]\<rparr> = Err ErrOffsetInsufficient"
proof (intro conjI)
  show "Decode (Type KindTuple 0 None ''tuple''
             (Some [TupleElem [] (Type KindString 0 None ''string'' None ROther) False]) ROther)
          \<lparr>elems = [], spare = []\<rparr> = Panic"
    by (simp add: Decode_def isVariableInput_def readOffset_def slice_range_def cap_def)
next
  have "readOffset \<lparr>elems = [], spare = replicate 32 0\<rparr> 0 = Ok 0"
    by (simp add: readOffset_def slice_range_def cap_def SetBytes_zeros BitLen_gt_63)
  then show "Decode (Type KindTuple 0 None ''tuple''
             (Some [TupleElem [] (Type KindString 0 None ''string'' None ROther) False]) ROther)
          \<lparr>elems = [], spare = replicate 32 0\<rparr> = Err ErrReadSlice"
    by (simp add: Decode_def isVariableInput_def len_def slice_from_def slice_range_def cap_def
        readLength_def readSlice_def wrap64_def)
next
  have "SetBytes (replicate 31 0 @ [1]) = 1"
    by (simp only: SetBytes_snoc SetBytes_zeros) simp
  then have "readOffset \<lparr>elems = [], spare = replicate 31 0 @ [1]\<rparr> 0
             = Err ErrOffsetInsufficient"
    by (simp add: readOffset_def slice_range_def cap_def BitLen_gt_63)
  then show "Decode (Type KindTuple 0 None ''tuple''
             (Some [TupleElem [] (Type KindString 0 None ''string'' None ROther) False]) ROther)
          \<lparr>elems = [], spare = replicate 31 0 @ [1]\<rparr> = Err ErrOffsetInsufficient"
    by (simp add: Decode_def isVariableInput_def len_def)
qed



text \<open>
  C8. For a type of kind \<open>KindUInt\<close> or \<open>KindInt\<close> whose reflected type is not a native
  integer (the \<open>*big.Int\<close> of the 256-bit types), and an input with a full first word
  of big-endian value \<open>U\<close>: the unsigned type decodes to \<open>U\<close>; the signed type decodes
  to \<open>U\<close> when \<open>U \<le> 2^255 - 1\<close> and to \<open>U - 2^256\<close> otherwise.
\<close>

theorem decode_int256_twos_complement:
  assumes "t' ty = ROther" and "32 \<le> length (elems input)"
  shows "(kind ty = KindUInt \<longrightarrow> decode ty input =
            Ok (VBigInt (\<Sum>i<32. uint (elems input ! i) * 256 ^ (31 - i)),
                \<lparr>elems = drop 32 (elems input), spare = spare input\<rparr>))
       \<and> (kind ty = KindInt \<longrightarrow> decode ty input =
            Ok (VBigInt (if (\<Sum>i<32. uint (elems input ! i) * 256 ^ (31 - i)) \<le> 2 ^ 255 - 1
                         then (\<Sum>i<32. uint (elems input ! i) * 256 ^ (31 - i))
                         else (\<Sum>i<32. uint (elems input ! i) * 256 ^ (31 - i)) - 2 ^ 256),
                \<lparr>elems = drop 32 (elems input), spare = spare input\<rparr>))"
proof -
  have "int (SetBytes (take 32 (elems input)))
        = (\<Sum>i<32. uint (elems input ! i) * 256 ^ (31 - i))"
    using assms(2) by (simp add: SetBytes_sum min_def)
  then show ?thesis
    using assms
    by (auto simp: decode_int_word readInteger_def decode_return_Ok maxInt256_def
        maxUint256_def Let_def)
qed

theorem decode_int256_twos_complement_witness:
  "t' (Type KindInt 256 None ''int256'' None ROther) = ROther
   \<and> 32 \<le> length (elems \<lparr>elems = replicate 32 255, spare = []\<rparr>)
   \<and> decode (Type KindInt 256 None ''int256'' None ROther)
        \<lparr>elems = replicate 32 255, spare = []\<rparr>
     = Ok (VBigInt (- 1), \<lparr>elems = [], spare = []\<rparr>)
   \<and> decode (Type KindUInt 256 None ''uint256'' None ROther)
        \<lparr>elems = replicate 31 0 @ [42], spare = []\<rparr>
     = Ok (VBigInt 42, \<lparr>elems = [], spare = []\<rparr>)"
  using decode_int256_twos_complement [of "Type KindInt 256 None ''int256'' None ROther"
          "\<lparr>elems = replicate 32 255, spare = []\<rparr>"]
        decode_int256_twos_complement [of "Type KindUInt 256 None ''uint256'' None ROther"
          "\<lparr>elems = replicate 31 0 @ [42], spare = []\<rparr>"]
  by (simp add: lessThan_nat_numeral lessThan_Suc nth_append)

text \<open>
  C9. Decoding a type of kind \<open>KindBool\<close> from an input with a full first word gives
  \<open>false\<close> when byte 31 is 0, \<open>true\<close> when it is 1, and the error "bad boolean" for
  every other byte.
\<close>

theorem decode_bool_word:
  assumes "kind ty = KindBool" and "32 \<le> length (elems input)"
  shows "decode ty input =
     (if elems input ! 31 = 0
      then Ok (VBool False, \<lparr>elems = drop 32 (elems input), spare = spare input\<rparr>)
      else if elems input ! 31 = 1
      then Ok (VBool True, \<lparr>elems = drop 32 (elems input), spare = spare input\<rparr>)
      else Err ErrBadBoolean)"
  using assms
  by (cases ty) (simp add: isVariableInput_def decode_word_def readSlice_0_32 readSlice_32_0
      decode_return_def decodeBool_def index_def len_def)

theorem decode_bool_word_witness:
  "kind (Type KindBool 0 None ''bool'' None ROther) = KindBool
   \<and> 32 \<le> length (elems \<lparr>elems = replicate 31 0 @ [2], spare = []\<rparr>)
   \<and> decode (Type KindBool 0 None ''bool'' None ROther)
        \<lparr>elems = replicate 31 0 @ [2], spare = []\<rparr> = Err ErrBadBoolean
   \<and> decode (Type KindBool 0 None ''bool'' None ROther)
        \<lparr>elems = replicate 31 0 @ [1], spare = []\<rparr>
      = Ok (VBool True, \<lparr>elems = [], spare = []\<rparr>)"
  using decode_bool_word [of "Type KindBool 0 None ''bool'' None ROther"
          "\<lparr>elems = replicate 31 0 @ [2], spare = []\<rparr>"]
        decode_bool_word [of "Type KindBool 0 None ''bool'' None ROther"
          "\<lparr>elems = replicate 31 0 @ [1], spare = []\<rparr>"]
  by (simp add: nth_append)

text \<open>
  C10. For a type of kind \<open>KindInt\<close> or \<open>KindUInt\<close> whose reflected type is one of the
  eight native integer kinds, decoding an input with a full first word always succeeds,
  and the value is the big-endian number of the last 1, 2, 4 or 8 bytes of that word;
  the leading bytes are not looked at, whatever they hold.
\<close>

theorem decode_native_integer_last_bytes:
  assumes "kind ty = KindInt \<or> kind ty = KindUInt" and "32 \<le> length (elems input)"
  shows "(t' ty = RUint8 \<longrightarrow> decode ty input =
            Ok (VUint8 (elems input ! 31),
                \<lparr>elems = drop 32 (elems input), spare = spare input\<rparr>))
       \<and> (t' ty = RUint16 \<longrightarrow> decode ty input =
            Ok (VUint16 (word_of_nat (SetBytes (drop 30 (take 32 (elems input))))),
                \<lparr>elems = drop 32 (elems input), spare = spare input\<rparr>))
       \<and> (t' ty = RUint32 \<longrightarrow> decode ty input =
            Ok (VUint32 (word_of_nat (SetBytes (drop 28 (take 32 (elems input))))),
                \<lparr>elems = drop 32 (elems input), spare = spare input\<rparr>))
       \<and> (t' ty = RUint64 \<longrightarrow> decode ty input =
            Ok (VUint64 (word_of_nat (SetBytes (drop 24 (take 32 (elems input))))),
                \<lparr>elems = drop 32 (elems input), spare = spare input\<rparr>))
       \<and> (t' ty = RInt8 \<longrightarrow> decode ty input =
            Ok (VInt8 (elems input ! 31),
                \<lparr>elems = drop 32 (elems input), spare = spare input\<rparr>))
       \<and> (t' ty = RInt16 \<longrightarrow> decode ty input =
            Ok (VInt16 (word_of_nat (SetBytes (drop 30 (take 32 (elems input))))),
                \<lparr>elems = drop 32 (elems input), spare = spare input\<rparr>))
       \<and> (t' ty = RInt32 \<longrightarrow> decode ty input =
            Ok (VInt32 (word_of_nat (SetBytes (drop 28 (take 32 (elems input))))),
                \<lparr>elems = drop 32 (elems input), spare = spare input\<rparr>))
       \<and> (t' ty = RInt64 \<longrightarrow> decode ty input =
            Ok (VInt64 (word_of_nat (SetBytes (drop 24 (take 32 (elems input))))),
                \<lparr>elems = drop 32 (elems input), spare = spare input\<rparr>))"
proof -
  let ?sp = "drop 32 (elems input) @ spare input"
  let ?w = "\<lparr>elems = take 32 (elems input), spare = ?sp\<rparr>"
  have len: "len ?w = 32" using assms(2) by (simp add: len_def)
  have s1: "index ?w (len ?w - 1) = Ok (elems input ! 31)"
    using assms(2) by (simp add: index_def len_def)
  have s2: "slice_from ?w (len ?w - 2)
            = Ok \<lparr>elems = drop 30 (take 32 (elems input)), spare = ?sp\<rparr>"
    using last_slice [OF assms(2), of 2 ?sp] len by simp
  have s4: "slice_from ?w (len ?w - 4)
            = Ok \<lparr>elems = drop 28 (take 32 (elems input)), spare = ?sp\<rparr>"
    using last_slice [OF assms(2), of 4 ?sp] len by simp
  have s8: "slice_from ?w (len ?w - 8)
            = Ok \<lparr>elems = drop 24 (take 32 (elems input)), spare = ?sp\<rparr>"
    using last_slice [OF assms(2), of 8 ?sp] len by simp
  have u2: "BigEndian_Uint16 \<lparr>elems = drop 30 (take 32 (elems input)), spare = ?sp\<rparr>
            = Ok (word_of_nat (SetBytes (drop 30 (take 32 (elems input)))))"
    using assms(2) by (subst Uint16_SetBytes) simp_all
  have u4: "BigEndian_Uint32 \<lparr>elems = drop 28 (take 32 (elems input)), spare = ?sp\<rparr>
            = Ok (word_of_nat (SetBytes (drop 28 (take 32 (elems input)))))"
    using assms(2) by (subst Uint32_SetBytes) simp_all
  have u8: "BigEndian_Uint64 \<lparr>elems = drop 24 (take 32 (elems input)), spare = ?sp\<rparr>
            = Ok (word_of_nat (SetBytes (drop 24 (take 32 (elems input)))))"
    using assms(2) by (subst Uint64_SetBytes) simp_all
  show ?thesis
    unfolding decode_int_word [OF assms]
    by (simp add: readInteger_def s1 s2 s4 s8 u2 u4 u8 decode_return_Ok [OF assms(2)])
qed

text \<open>A \<open>uint64\<close> and a \<open>uint8\<close> read from words whose leading bytes are all \<open>0xff\<close>.\<close>

theorem decode_native_integer_last_bytes_witness:
  "(kind (Type KindUInt 64 None ''uint64'' None RUint64) = KindInt
    \<or> kind (Type KindUInt 64 None ''uint64'' None RUint64) = KindUInt)
   \<and> 32 \<le> length (elems \<lparr>elems = replicate 24 255 @ [0, 0, 0, 0, 0, 0, 1, 2], spare = []\<rparr>)
   \<and> decode (Type KindUInt 64 None ''uint64'' None RUint64)
        \<lparr>elems = replicate 24 255 @ [0, 0, 0, 0, 0, 0, 1, 2], spare = []\<rparr>
      = Ok (VUint64 258, \<lparr>elems = [], spare = []\<rparr>)
   \<and> decode (Type KindUInt 8 None ''uint8'' None RUint8)
        \<lparr>elems = replicate 31 255 @ [7], spare = []\<rparr>
      = Ok (VUint8 7, \<lparr>elems = [], spare = []\<rparr>)"
  using decode_native_integer_last_bytes [of "Type KindUInt 64 None ''uint64'' None RUint64"
          "\<lparr>elems = replicate 24 255 @ [0, 0, 0, 0, 0, 0, 1, 2], spare = []\<rparr>"]
        decode_native_integer_last_bytes [of "Type KindUInt 8 None ''uint8'' None RUint8"
          "\<lparr>elems = replicate 31 255 @ [7], spare = []\<rparr>"]
  by (simp add: SetBytes_def nth_append)

text \<open>
  C5 (what the code does). The specification calls \<open>readSlice\<close> the single gate that
  answers every request outside the buffer with an error. The code compares only the
  upper end with the length; the lower side of the range reaches the slice expression
  unchecked. \<open>readSlice(buf, 32, 0)\<close> on the empty buffer evaluates \<open>buf[32:0]\<close>;
  \<open>readSlice(buf, -5, 0)\<close> on three bytes evaluates \<open>buf[-2:3]\<close>;
  \<open>readSlice(buf, 2, -2)\<close> on three bytes evaluates \<open>buf[2:1]\<close>. Each one panics.
\<close>

theorem readSlice_start_past_end_panics:
  "readSlice \<lparr>elems = [], spare = []\<rparr> 32 0 = Panic
   \<and> readSlice \<lparr>elems = [1, 2, 3], spare = []\<rparr> (- 5) 0 = Panic
   \<and> readSlice \<lparr>elems = [1, 2, 3], spare = []\<rparr> 2 (- 2) = Panic"
  by (simp add: readSlice_def slice_range_def len_def cap_def wrap64_def Let_def)

subsection \<open>Cloning\<close>

lemma Clone_tuple_map:
  "Clone_tuple vs = map (\<lambda>v. TupleElem [] (Clone (Elem v)) (Indexed v)) vs"
proof (induction vs)
  case Nil
  show ?case by simp
next
  case (Cons v vs)
  then show ?case by (cases v) simp
qed

lemma Clone_ptr_map: "Clone_ptr p = map_option Clone p"
  by (cases p) simp_all

text \<open>
  C2 (as the code has it). \<open>Clone\<close> returns a copy with the kind, size, raw string and
  reflected type of the original, a recursively cloned element type, and for a tuple
  the same ordered sequence of elements, each with the clone of the original element
  type and the original indexed flag, and with the empty name; nil stays nil, for the
  receiver, for \<open>elem\<close> and for \<open>tuple\<close>.
\<close>

theorem Clone_copies_all_but_names:
  "Clone_ptr None = None
   \<and> Clone_ptr (Some ty) = Some (Clone ty)
   \<and> kind (Clone ty) = kind ty \<and> size' (Clone ty) = size' ty \<and> raw (Clone ty) = raw ty
   \<and> t' (Clone ty) = t' ty
   \<and> elem (Clone ty) = map_option Clone (elem ty)
   \<and> tuple (Clone ty) =
       map_option (map (\<lambda>v. TupleElem [] (Clone (Elem v)) (Indexed v))) (tuple ty)"
  by (cases ty) (simp add: Clone_tuple_map Clone_ptr_map split: option.splits)

text \<open>
  The claim as the specification states it, with the names kept, fails on the tuple
  \<open>(address to)\<close>: the clone differs from the original, its element has no name.
\<close>

theorem Clone_drops_element_names:
  "Clone_ptr (Some (Type KindTuple 0 None ''tuple''
      (Some [TupleElem ''to'' (Type KindAddress 0 None ''address'' None ROther) False]) ROther))
   \<noteq> Some (Type KindTuple 0 None ''tuple''
      (Some [TupleElem ''to'' (Type KindAddress 0 None ''address'' None ROther) False]) ROther)
   \<and> map Name (tuple_elems (Clone (Type KindTuple 0 None ''tuple''
      (Some [TupleElem ''to'' (Type KindAddress 0 None ''address'' None ROther) False]) ROther)))
     = [[]]"
  by (simp add: tuple_elems_def)

subsection \<open>Matching a log\<close>

text \<open>
  C3 (as the code has it). For every event, anonymous or not: \<open>Match\<close> is true exactly
  when the log has a first topic and that topic equals the event's identifier; when
  \<open>Match\<close> is false \<open>ParseLog\<close> returns the error "log does not match this event";
  when it is true \<open>ParseLog\<close> returns what the parser of the input type returns. The
  anonymous flag changes neither answer.
\<close>

theorem ParseLog_checks_first_topic:
  "(fst (Event_Match keccak e log)
      \<longleftrightarrow> length (Topics log) \<noteq> 0 \<and> Topics log ! 0 = fst (Event_ID keccak e))
   \<and> (\<not> fst (Event_Match keccak e log)
      \<longrightarrow> fst (Event_ParseLog keccak Type_ParseLog e log) = Err ErrNoMatch)
   \<and> (fst (Event_Match keccak e log)
      \<longrightarrow> fst (Event_ParseLog keccak Type_ParseLog e log) = Type_ParseLog (Event_Inputs e) log)
   \<and> fst (Event_Match keccak (e\<lparr>Event_Anonymous := b\<rparr>) log) = fst (Event_Match keccak e log)
   \<and> fst (Event_ParseLog keccak Type_ParseLog (e\<lparr>Event_Anonymous := b\<rparr>) log)
       = fst (Event_ParseLog keccak Type_ParseLog e log)"
  by (auto simp: Event_Match_def Event_ParseLog_def Event_ID_def Event_Sig_def Let_def
      split: prod.splits if_splits)

theorem ParseLog_checks_first_topic_witness:
  "fst (Event_Match ex_keccak ex_event (ex_log 33))
   \<and> fst (Event_ParseLog ex_keccak ex_Type_ParseLog ex_event (ex_log 33)) = Ok 1
   \<and> \<not> fst (Event_Match ex_keccak ex_event (ex_log 2))
   \<and> fst (Event_ParseLog ex_keccak ex_Type_ParseLog ex_event (ex_log 2)) = Err ErrNoMatch"
proof -
  have s: "Event_Sig ex_event = ''Transfer(address,address,uint256)''"
    by (simp add: Event_Sig_def buildSignature_def ex_event_def tuple_elems_def)
  have i: "fst (Event_ID ex_keccak ex_event) = replicate 32 33"
    by (simp add: Event_ID_def s Let_def ex_keccak_def string_bytes_def copy_over_def)
       (simp add: ex_event_def Uint64_of_def)
  note A = ParseLog_checks_first_topic [of ex_keccak ex_event "ex_log 33" ex_Type_ParseLog]
  note B = ParseLog_checks_first_topic [of ex_keccak ex_event "ex_log 2" ex_Type_ParseLog]
  have m: "fst (Event_Match ex_keccak ex_event (ex_log 33))"
    using A i by (simp add: ex_log_def)
  with A have "fst (Event_ParseLog ex_keccak ex_Type_ParseLog ex_event (ex_log 33))
                = ex_Type_ParseLog (Event_Inputs ex_event) (ex_log 33)"
    by blast
  then have p: "fst (Event_ParseLog ex_keccak ex_Type_ParseLog ex_event (ex_log 33)) = Ok 1"
    by (simp add: ex_Type_ParseLog_def ex_log_def)
  have n: "\<not> fst (Event_Match ex_keccak ex_event (ex_log 2))"
    using B i by (simp add: ex_log_def)
  then have q: "fst (Event_ParseLog ex_keccak ex_Type_ParseLog ex_event (ex_log 2)) = Err ErrNoMatch"
    using B by blast
  from m p n q show ?thesis by blast
qed

text \<open>
  The claim as the specification states it fails for an anonymous event: the first
  topic is compared with the identifier all the same, and a log whose first topic
  differs is rejected.
\<close>

theorem ParseLog_anonymous_event_rejected:
  "Event_Anonymous ex_anonymous
   \<and> fst (Event_ParseLog ex_keccak ex_Type_ParseLog ex_anonymous (ex_log 2)) = Err ErrNoMatch"
  by (simp add: Event_ParseLog_def Event_Match_def Event_ID_def Uint64_of_def copy_over_def
      Let_def ex_anonymous_def ex_log_def ex_keccak_def Event_Sig_def buildSignature_def
      tuple_elems_def string_bytes_def)

subsection \<open>Signatures and identifiers\<close>

lemma buildSignature_loop_map:
  "i + length es \<le> length types \<Longrightarrow>
   buildSignature_loop es i types
   = take i types @ map (\<lambda>x. raw (Elem x)) es @ drop (i + length es) types"
proof (induction es arbitrary: i types)
  case Nil
  then show ?case by simp
next
  case (Cons a es)
  then have i: "i < length types" by simp
  have "take (Suc i) (types[i := raw (Elem a)]) = take i types @ [raw (Elem a)]"
    using i by (simp add: take_Suc_conv_app_nth)
  moreover have "drop (Suc i + length es) (types[i := raw (Elem a)])
                 = drop (Suc i + length es) types"
    by simp
  ultimately show ?case
    using Cons.IH [of "Suc i" "types[i := raw (Elem a)]"] Cons.prems by simp
qed

lemma buildSignature_eq:
  "buildSignature name typ
   = name @ ''('' @ Join (map (\<lambda>x. raw (Elem x)) (tuple_elems typ)) '','' @ '')''"
  by (simp add: buildSignature_def buildSignature_loop_map)

lemma Method_ID_again:
  "Method_ID keccak (snd (Method_ID keccak m))
   = (fst (Method_ID keccak m), snd (Method_ID keccak m))"
  by (simp add: Method_ID_def Let_def Method_Sig_def)

lemma copy_over_same: "length dst = length src \<Longrightarrow> copy_over dst src = src"
  by (simp add: copy_over_def)

lemma Event_ID_again:
  assumes "length (keccak (string_bytes (Event_Sig e))) = 32" "length (Event_id e) = 32"
  shows "Event_ID keccak (snd (Event_ID keccak e))
   = (fst (Event_ID keccak e), snd (Event_ID keccak e))"
  using assms
  by (simp add: Event_ID_def Let_def Event_Sig_def copy_over_same)

lemma funpow_fixed: "f (f x) = f x \<Longrightarrow> (f ^^ Suc n) x = f x"
  by (induction n) simp_all

text \<open>
  C6. \<open>Sig\<close> of a method or an event is the name, an opening parenthesis, the raw
  strings of the element types of the input tuple joined by commas, and a closing
  parenthesis; names and indexed flags of the elements do not occur. With a hasher
  that returns 32 bytes, and an \<open>id\<close> field that is still unset or holds the
  identifier of the signature, \<open>Method.ID\<close> is the first 4 bytes of the hash of \<open>Sig\<close>
  and \<open>Event.ID\<close> all 32. Whatever the state, any number of earlier calls of \<open>ID\<close>
  leaves the value that \<open>ID\<close> returns the same.
\<close>

theorem signature_and_identifier:
  assumes "\<forall>x. length (keccak x) = 32" and "length (Event_id e) = 32"
  shows "Method_Sig m = Method_Name m @ ''(''
            @ Join (map (\<lambda>x. raw (Elem x)) (tuple_elems (Method_Inputs m))) '','' @ '')''
    \<and> Event_Sig e = Event_Name e @ ''(''
            @ Join (map (\<lambda>x. raw (Elem x)) (tuple_elems (Event_Inputs e))) '','' @ '')''
    \<and> (Method_id m = [] \<or> Method_id m = take 4 (keccak (string_bytes (Method_Sig m)))
        \<longrightarrow> fst (Method_ID keccak m) = take 4 (keccak (string_bytes (Method_Sig m))))
    \<and> (Event_id e = replicate 32 0 \<or> Event_id e = keccak (string_bytes (Event_Sig e))
        \<longrightarrow> fst (Event_ID keccak e) = keccak (string_bytes (Event_Sig e)))
    \<and> fst (Method_ID keccak (((\<lambda>x. snd (Method_ID keccak x)) ^^ n) m))
        = fst (Method_ID keccak m)
    \<and> fst (Event_ID keccak (((\<lambda>x. snd (Event_ID keccak x)) ^^ n) e))
        = fst (Event_ID keccak e)"
proof (intro conjI)
  show "Method_Sig m = Method_Name m @ ''(''
            @ Join (map (\<lambda>x. raw (Elem x)) (tuple_elems (Method_Inputs m))) '','' @ '')''"
    by (simp add: Method_Sig_def buildSignature_eq)
  show "Event_Sig e = Event_Name e @ ''(''
            @ Join (map (\<lambda>x. raw (Elem x)) (tuple_elems (Event_Inputs e))) '','' @ '')''"
    by (simp add: Event_Sig_def buildSignature_eq)
  show "Method_id m = [] \<or> Method_id m = take 4 (keccak (string_bytes (Method_Sig m)))
        \<longrightarrow> fst (Method_ID keccak m) = take 4 (keccak (string_bytes (Method_Sig m)))"
    by (auto simp: Method_ID_def Let_def)
  have z: "Uint64_of (replicate 32 0) = 0"
    by (simp add: Uint64_of_def)
  show "Event_id e = replicate 32 0 \<or> Event_id e = keccak (string_bytes (Event_Sig e))
        \<longrightarrow> fst (Event_ID keccak e) = keccak (string_bytes (Event_Sig e))"
    using assms by (auto simp: Event_ID_def Let_def z copy_over_same)
  show "fst (Method_ID keccak (((\<lambda>x. snd (Method_ID keccak x)) ^^ n) m))
        = fst (Method_ID keccak m)"
  proof (cases n)
    case 0
    then show ?thesis by simp
  next
    case (Suc k)
    have "((\<lambda>x. snd (Method_ID keccak x)) ^^ Suc k) m = snd (Method_ID keccak m)"
      by (rule funpow_fixed) (simp add: Method_ID_again)
    with Suc show ?thesis by (simp add: Method_ID_again)
  qed
  show "fst (Event_ID keccak (((\<lambda>x. snd (Event_ID keccak x)) ^^ n) e))
        = fst (Event_ID keccak e)"
  proof (cases n)
    case 0
    then show ?thesis by simp
  next
    case (Suc k)
    have again: "Event_ID keccak (snd (Event_ID keccak e))
       = (fst (Event_ID keccak e), snd (Event_ID keccak e))"
      using assms by (intro Event_ID_again) simp_all
    have "((\<lambda>x. snd (Event_ID keccak x)) ^^ Suc k) e = snd (Event_ID keccak e)"
      by (rule funpow_fixed) (simp add: again)
    with Suc show ?thesis by (simp add: again)
  qed
qed

theorem signature_and_identifier_witness:
  "(\<forall>x. length (ex_keccak x) = 32)
   \<and> length (Event_id ex_event) = 32
   \<and> Method_Sig ex_method = ''transfer(address,uint256)''
   \<and> Event_Sig ex_event = ''Transfer(address,address,uint256)''
   \<and> fst (Method_ID ex_keccak ex_method) = [25, 25, 25, 25]
   \<and> fst (Event_ID ex_keccak ex_event) = replicate 32 33
   \<and> fst (Method_ID ex_keccak (snd (Method_ID ex_keccak ex_method))) = [25, 25, 25, 25]
   \<and> fst (Event_ID ex_keccak (snd (Event_ID ex_keccak ex_event))) = replicate 32 33"
proof -
  have k: "\<forall>x. length (ex_keccak x) = 32" by (simp add: ex_keccak_def)
  have l: "length (Event_id ex_event) = 32" by (simp add: ex_event_def)
  note T = signature_and_identifier [OF k l, of ex_method "Suc 0"]
  have s1: "Method_Sig ex_method = ''transfer(address,uint256)''"
    using T [THEN conjunct1] by (simp add: ex_method_def tuple_elems_def)
  have s2: "Event_Sig ex_event = ''Transfer(address,address,uint256)''"
    using T [THEN conjunct2, THEN conjunct1] by (simp add: ex_event_def tuple_elems_def)
  have "fst (Method_ID ex_keccak ex_method)
        = take 4 (ex_keccak (string_bytes (Method_Sig ex_method)))"
    using T [THEN conjunct2, THEN conjunct2, THEN conjunct1] by (simp add: ex_method_def)
  then have i1: "fst (Method_ID ex_keccak ex_method) = [25, 25, 25, 25]"
    by (simp add: s1 string_bytes_def ex_keccak_def numeral_eq_Suc)
  have "fst (Event_ID ex_keccak ex_event) = ex_keccak (string_bytes (Event_Sig ex_event))"
    using T [THEN conjunct2, THEN conjunct2, THEN conjunct2, THEN conjunct1]
    by (simp add: ex_event_def)
  then have i2: "fst (Event_ID ex_keccak ex_event) = replicate 32 33"
    by (simp add: s2 string_bytes_def ex_keccak_def)
  have i3: "fst (Method_ID ex_keccak (snd (Method_ID ex_keccak ex_method))) = [25, 25, 25, 25]"
    using T [THEN conjunct2, THEN conjunct2, THEN conjunct2, THEN conjunct2, THEN conjunct1] i1
    by simp
  have i4: "fst (Event_ID ex_keccak (snd (Event_ID ex_keccak ex_event))) = replicate 32 33"
    using T [THEN conjunct2, THEN conjunct2, THEN conjunct2, THEN conjunct2, THEN conjunct2] i2
    by simp
  from k l s1 s2 i1 i2 i3 i4 show ?thesis by blast
qed

subsection \<open>Overloaded names\<close>

lemma overloaded_loop_spec:
  "(\<not> ok \<longrightarrow> overloaded_loop m rawName name ok idx = name)
   \<and> (ok \<longrightarrow> (\<exists>k\<ge>idx. overloaded_loop m rawName name ok idx = rawName @ Itoa k
          \<and> fmlookup m (rawName @ Itoa k) = None
          \<and> (\<forall>j. idx \<le> j \<and> j < k \<longrightarrow> fmlookup m (rawName @ Itoa j) \<noteq> None)))"
proof (induction m rawName name ok idx rule: overloaded_loop.induct)
  case (1 m rawName name ok idx)
  show ?case
  proof (cases ok)
    case False
    then show ?thesis by (subst overloaded_loop.simps) simp
  next
    case True
    let ?name' = "rawName @ Itoa idx"
    let ?ok' = "fmlookup m ?name' \<noteq> None"
    have step: "overloaded_loop m rawName name ok idx
                = overloaded_loop m rawName ?name' ?ok' (Suc idx)"
      using True by (subst overloaded_loop.simps) (simp add: Let_def)
    note IH = 1 [OF True refl refl]
    show ?thesis
    proof (cases ?ok')
      case False
      with IH have "overloaded_loop m rawName ?name' ?ok' (Suc idx) = ?name'" by simp
      with step False True show ?thesis by auto
    next
      case t: True
      with IH obtain k where k: "Suc idx \<le> k"
        "overloaded_loop m rawName ?name' ?ok' (Suc idx) = rawName @ Itoa k"
        "fmlookup m (rawName @ Itoa k) = None"
        "\<forall>j. Suc idx \<le> j \<and> j < k \<longrightarrow> fmlookup m (rawName @ Itoa j) \<noteq> None"
        by blast
      have "\<forall>j. idx \<le> j \<and> j < k \<longrightarrow> fmlookup m (rawName @ Itoa j) \<noteq> None"
      proof (intro allI impI)
        fix j assume j: "idx \<le> j \<and> j < k"
        show "fmlookup m (rawName @ Itoa j) \<noteq> None"
        proof (cases "j = idx")
          case True
          with t show ?thesis by simp
        next
          case False
          with j have "Suc idx \<le> j \<and> j < k" by simp
          with k(4) show ?thesis by blast
        qed
      qed
      with k step True show ?thesis
        by (intro impI conjI) (auto intro!: exI [of _ k])
    qed
  qed
qed

lemma overloaded_name_spec:
  "fmlookup m (overloaded_loop m rawName rawName (fmlookup m rawName \<noteq> None) 0) = None
   \<and> (fmlookup m rawName = None
        \<longrightarrow> overloaded_loop m rawName rawName (fmlookup m rawName \<noteq> None) 0 = rawName)
   \<and> (fmlookup m rawName \<noteq> None
        \<longrightarrow> (\<exists>k. overloaded_loop m rawName rawName (fmlookup m rawName \<noteq> None) 0
                    = rawName @ Itoa k
               \<and> (\<forall>j<k. fmlookup m (rawName @ Itoa j) \<noteq> None)))"
  using overloaded_loop_spec [of "fmlookup m rawName \<noteq> None" m rawName rawName 0]
  by (cases "fmlookup m rawName = None") auto

lemma card_fresh:
  "fmlookup m k = None \<Longrightarrow> card (insert k (fmdom' m)) = Suc (card (fmdom' m))"
  by (simp add: fmdom'_notI)

lemma UnmarshalJSON_loop_card:
  "UnmarshalJSON_loop flds a = Ok abi' \<Longrightarrow>
   card (fmdom' (Methods abi')) = card (fmdom' (Methods a))
      + length (filter (\<lambda>f. field_Type f = ''function'' \<or> field_Type f = []) flds)
   \<and> card (fmdom' (Events abi')) = card (fmdom' (Events a))
      + length (filter (\<lambda>f. field_Type f = ''event'') flds)"
proof (induction flds arbitrary: a)
  case Nil
  then show ?case by simp
next
  case (Cons f flds)
  have m: "fmlookup (Methods a) (overloadedMethodName a (field_Name f)) = None"
    using overloaded_name_spec [of "Methods a" "field_Name f"]
    by (simp add: overloadedMethodName_def)
  have ev: "fmlookup (Events a) (overloadedEventName a (field_Name f)) = None"
    using overloaded_name_spec [of "Events a" "field_Name f"]
    by (simp add: overloadedEventName_def)
  consider (c) "field_Type f = ''constructor''"
    | (f) "field_Type f = ''function'' \<or> field_Type f = []"
    | (e) "field_Type f = ''event''"
    | (o) "field_Type f = ''error'' \<or> field_Type f = ''fallback'' \<or> field_Type f = ''receive''"
    | (u) "field_Type f \<notin> {''constructor'', ''function'', [], ''event'', ''error'',
                            ''fallback'', ''receive''}"
    by auto
  then show ?case
  proof cases
    case c
    with Cons.prems have "UnmarshalJSON_loop flds
                (a\<lparr>Constructor := Some \<lparr>Method_Name = [], Method_Const = False,
                      Method_Inputs = arguments_Type (field_Inputs f),
                      Method_Outputs = None, Method_id = []\<rparr>\<rparr>) = Ok abi'"
      by (simp split: if_splits)
    from Cons.IH [OF this] c show ?thesis by simp
  next
    case f
    let ?c = "if field_StateMutability f = ''view'' \<or> field_StateMutability f = ''pure''
              then True else field_Constant f"
    let ?M = "\<lparr>Method_Name = field_Name f, Method_Const = ?c,
               Method_Inputs = arguments_Type (field_Inputs f),
               Method_Outputs = Some (arguments_Type (field_Outputs f)),
               Method_id = []\<rparr>"
    let ?n = "overloadedMethodName a (field_Name f)"
    from Cons.prems f
    have "UnmarshalJSON_loop flds (a\<lparr>Methods := fmupd ?n ?M (Methods a)\<rparr>) = Ok abi'"
      by (auto simp: Let_def)
    from Cons.IH [OF this] f m show ?thesis
      by (auto simp: card_fresh)
  next
    case e
    let ?E = "\<lparr>Event_Name = field_Name f, Event_Anonymous = field_Anonymous f,
               Event_Inputs = arguments_Type (field_Inputs f),
               Event_id = replicate 32 0\<rparr>"
    let ?n = "overloadedEventName a (field_Name f)"
    from Cons.prems e
    have "UnmarshalJSON_loop flds (a\<lparr>Events := fmupd ?n ?E (Events a)\<rparr>) = Ok abi'"
      by (auto simp: Let_def)
    from Cons.IH [OF this] e ev show ?thesis
      by (auto simp: card_fresh)
  next
    case o
    with Cons.prems have "UnmarshalJSON_loop flds a = Ok abi'" by auto
    from Cons.IH [OF this] o show ?thesis by auto
  next
    case u
    with Cons.prems show ?thesis by simp
  qed
qed

text \<open>
  C7. \<open>overloadedMethodName\<close> and \<open>overloadedEventName\<close> always return, and the key
  they return is free. It is the raw name when the raw name is free; otherwise it is
  the raw name followed by the decimal form of the smallest \<open>k \<ge> 0\<close> for which that key
  is free (every smaller suffix is taken). The result is a function of the map and
  the raw name. When \<open>UnmarshalJSON\<close> succeeds, the method map has as many keys as the
  document has function entries and the event map as many as it has event entries: no
  two entries were stored under one key.
\<close>

theorem overload_renaming:
  "fmlookup (Methods abi) (overloadedMethodName abi rawName) = None
   \<and> (fmlookup (Methods abi) rawName = None \<longrightarrow> overloadedMethodName abi rawName = rawName)
   \<and> (fmlookup (Methods abi) rawName \<noteq> None
        \<longrightarrow> (\<exists>k. overloadedMethodName abi rawName = rawName @ Itoa k
               \<and> (\<forall>j<k. fmlookup (Methods abi) (rawName @ Itoa j) \<noteq> None)))
   \<and> fmlookup (Events abi) (overloadedEventName abi rawName) = None
   \<and> (fmlookup (Events abi) rawName = None \<longrightarrow> overloadedEventName abi rawName = rawName)
   \<and> (fmlookup (Events abi) rawName \<noteq> None
        \<longrightarrow> (\<exists>k. overloadedEventName abi rawName = rawName @ Itoa k
               \<and> (\<forall>j<k. fmlookup (Events abi) (rawName @ Itoa j) \<noteq> None)))
   \<and> (UnmarshalJSON flds a = Ok abi'
        \<longrightarrow> card (fmdom' (Methods abi'))
              = length (filter (\<lambda>f. field_Type f = ''function'' \<or> field_Type f = []) flds)
          \<and> card (fmdom' (Events abi'))
              = length (filter (\<lambda>f. field_Type f = ''event'') flds))"
  using overloaded_name_spec [of "Methods abi" rawName]
        overloaded_name_spec [of "Events abi" rawName]
        UnmarshalJSON_loop_card [of flds "a\<lparr>Methods := fmempty, Events := fmempty\<rparr>" abi']
  unfolding overloadedMethodName_def overloadedEventName_def UnmarshalJSON_def
  by simp

text \<open>Three declarations of \<open>send\<close> are stored as \<open>send\<close>, \<open>send0\<close> and \<open>send1\<close>.\<close>

theorem overload_renaming_witness:
  "UnmarshalJSON [ex_field, ex_field, ex_field]
      \<lparr>Constructor = None, Methods = fmempty, Events = fmempty\<rparr> = Ok ex_abi
   \<and> card (fmdom' (Methods ex_abi)) = 3
   \<and> fmlookup (Methods ex_abi) ''send'' \<noteq> None
   \<and> overloadedMethodName ex_abi ''send'' = ''send2''
   \<and> fmlookup (Events ex_abi) ''send'' = None
   \<and> overloadedEventName ex_abi ''send'' = ''send''"
proof -
  have itoa: "Itoa 0 = ''0''" "Itoa (Suc 0) = ''1''" "Itoa (Suc (Suc 0)) = ''2''"
    by (simp_all add: Itoa.simps digit_def char_of_def bit_iff_odd)
  have u: "UnmarshalJSON [ex_field, ex_field, ex_field]
      \<lparr>Constructor = None, Methods = fmempty, Events = fmempty\<rparr> = Ok ex_abi"
    by (simp add: UnmarshalJSON_def ex_field_def ex_abi_def ex_send_def arguments_Type_def
        overloadedMethodName_def overloaded_loop.simps itoa Let_def)
  note T = overload_renaming [of ex_abi "''send''" "[ex_field, ex_field, ex_field]"
               "\<lparr>Constructor = None, Methods = fmempty, Events = fmempty\<rparr>" ex_abi]
  from T u have c: "card (fmdom' (Methods ex_abi)) = 3"
    by (simp add: ex_field_def)
  have t: "fmlookup (Methods ex_abi) ''send'' \<noteq> None" by (simp add: ex_abi_def)
  have n: "overloadedMethodName ex_abi ''send'' = ''send2''"
    by (simp add: overloadedMethodName_def ex_abi_def overloaded_loop.simps itoa Let_def)
  have e: "fmlookup (Events ex_abi) ''send'' = None" by (simp add: ex_abi_def)
  with T have en: "overloadedEventName ex_abi ''send'' = ''send''" by blast
  from u c t n e en show ?thesis by blast
qed

end
